theory Spec2Isabelle
  imports Complex_Main "HOL-Library.Sublist"
begin

section \<open>Python primitives used by main.py\<close>

text \<open>
  Seconds are Python floats in the source. They are modelled as real numbers: the
  arithmetic of \<open>divmod\<close>, \<open>//\<close>, \<open>%\<close> and \<open>int\<close> is the exact one, without the
  rounding of IEEE doubles. Strings are lists of characters.
\<close>

text \<open>\<open>int(x)\<close> on a float truncates towards zero.\<close>

definition py_int :: "real \<Rightarrow> int" where
  "py_int x = (if 0 \<le> x then \<lfloor>x\<rfloor> else \<lceil>x\<rceil>)"

text \<open>\<open>x // y\<close> and \<open>x % y\<close> on floats: floor division, and the remainder that goes with
  it (it has the sign of the divisor). \<open>divmod(x, y)\<close> is the pair of the two.\<close>

definition py_floordiv :: "real \<Rightarrow> real \<Rightarrow> real" where
  "py_floordiv x y = of_int \<lfloor>x / y\<rfloor>"

definition py_mod :: "real \<Rightarrow> real \<Rightarrow> real" where
  "py_mod x y = x - of_int \<lfloor>x / y\<rfloor> * y"

definition py_divmod :: "real \<Rightarrow> real \<Rightarrow> real \<times> real" where
  "py_divmod x y = (py_floordiv x y, py_mod x y)"

text \<open>\<open>str(n)\<close> for an integer: decimal digits, most significant first, a minus sign
  for a negative number.\<close>

definition digit_char :: "nat \<Rightarrow> char" where
  "digit_char d = ''0123456789'' ! d"

fun str_nat :: "nat \<Rightarrow> string" where
  "str_nat n = (if n < 10 then [digit_char n] else str_nat (n div 10) @ [digit_char (n mod 10)])"

declare str_nat.simps [simp del]

definition str_int :: "int \<Rightarrow> string" where
  "str_int i = (if i < 0 then CHR ''-'' # str_nat (nat (- i)) else str_nat (nat i))"

text \<open>The format specification \<open>0Nd\<close> of an f-string: the decimal digits, padded with
  zeros on the left to a minimum width of N characters; the sign counts in the width
  and comes before the zeros. A number with more digits is not cut.\<close>

definition zfill :: "nat \<Rightarrow> string \<Rightarrow> string" where
  "zfill w s = replicate (w - length s) (CHR ''0'') @ s"

definition format_0d :: "nat \<Rightarrow> int \<Rightarrow> string" where
  "format_0d w i =
     (if i < 0 then CHR ''-'' # zfill (w - 1) (str_nat (nat (- i)))
      else zfill w (str_nat (nat i)))"

section \<open>format\_time\<close>

text \<open>
  \<^verbatim>\<open>
  def format_time(seconds) -> str:
      hours, remainder = divmod(seconds, 3600)
      minutes, seconds = divmod(remainder, 60)
      milliseconds = int((seconds - int(seconds)) * 1000)
      return f"{int(hours):02d}:{int(minutes):02d}:{int(seconds):02d},{milliseconds:03d}"
  \<close>
  The function has no \<open>raise\<close> and no check of its argument, so the model is a total
  function into strings.
\<close>

definition format_time :: "real \<Rightarrow> string" where
  "format_time seconds =
     (let (hours, remainder) = py_divmod seconds 3600;
          (minutes, seconds') = py_divmod remainder 60;
          milliseconds = py_int ((seconds' - of_int (py_int seconds')) * 1000)
      in format_0d 2 (py_int hours) @ '':'' @ format_0d 2 (py_int minutes) @ '':'' @
         format_0d 2 (py_int seconds') @ '','' @ format_0d 3 milliseconds)"

section \<open>segments\_to\_srt\<close>

text \<open>
  A segment of the transcription is a dictionary; the code reads its keys
  \<open>"start"\<close>, \<open>"end"\<close> and \<open>"text"\<close>. The characters of a string stand for code
  points below 256.
\<close>

record segment =
  seg_start :: real
  seg_end :: real
  seg_text :: string

text \<open>\<open>s.strip()\<close> removes the whitespace at both ends; \<open>is_space\<close> is
  \<open>str.isspace\<close> on the code points below 256.\<close>

definition is_space :: "char \<Rightarrow> bool" where
  "is_space c = ((of_char c :: nat) \<in> {9, 10, 11, 12, 13, 28, 29, 30, 31, 32, 133, 160})"

definition strip :: "string \<Rightarrow> string" where
  "strip s = rev (dropWhile is_space (rev (dropWhile is_space s)))"

text \<open>\<open>sep.join(xs)\<close>\<close>

fun join :: "string \<Rightarrow> string list \<Rightarrow> string" where
  "join sep [] = []"
| "join sep [x] = x"
| "join sep (x # y # ys) = x @ sep @ join sep (y # ys)"

text \<open>
  \<^verbatim>\<open>
  srt_text = []
  for i, segment in enumerate(segments):
      srt_index = i + 1
      srt_text.append(str(srt_index))
      start_time = format_time(segment["start"])
      end_time = format_time(segment["end"])
      srt_text.append(f"{start_time} --> {end_time}")
      srt_text.append(segment["text"].strip())
      srt_text.append("")
  return "\n".join(srt_text)
  \<close>
  The loop is \<open>srt_loop\<close>: \<open>i\<close> is the counter of \<open>enumerate\<close>, the last argument is
  the list \<open>srt_text\<close> built so far.
\<close>

fun srt_loop :: "nat \<Rightarrow> segment list \<Rightarrow> string list \<Rightarrow> string list" where
  "srt_loop i [] srt_text = srt_text"
| "srt_loop i (segment # rest) srt_text =
     (let srt_index = int i + 1;
          srt_text = srt_text @ [str_int srt_index];
          start_time = format_time (seg_start segment);
          end_time = format_time (seg_end segment);
          srt_text = srt_text @ [start_time @ '' --> '' @ end_time];
          srt_text = srt_text @ [strip (seg_text segment)];
          srt_text = srt_text @ [[]]
      in srt_loop (i + 1) rest srt_text)"

definition segments_to_srt :: "segment list \<Rightarrow> string" where
  "segments_to_srt segments = join ''\<newline>'' (srt_loop 0 segments [])"

text \<open>The rendering of one block as the specification words it: four lines, the
  1-based index, the time range, the trimmed text and an empty line.\<close>

definition srt_block :: "nat \<Rightarrow> segment \<Rightarrow> string list" where
  "srt_block k seg =
     [str_int (int k + 1),
      format_time (seg_start seg) @ '' --> '' @ format_time (seg_end seg),
      strip (seg_text seg),
      []]"

section \<open>Collaborators, exceptions and effects\<close>

text \<open>
  The functions below call three collaborators: \<open>VideoFileClip(video_path)\<close>, the whisper
  model and the chat client. A collaborator either returns or raises. The exceptions of
  the model are the instances of Python's \<open>Exception\<close>, in the two classes that the
  \<open>except\<close> clauses of the source tell apart: \<open>ValueError\<close> (with its subclasses) and
  every other class, whose name is kept. Both carry the message that \<open>str(e)\<close> gives.
  The signals that derive from \<open>BaseException\<close> only (\<open>KeyboardInterrupt\<close>,
  \<open>SystemExit\<close>) are no failures of a collaborator and are not part of the model.
\<close>

datatype py_exception = ValueError string | OtherException string string

fun exc_message :: "py_exception \<Rightarrow> string" where
  "exc_message (ValueError m) = m"
| "exc_message (OtherException c m) = m"

text \<open>An opened clip: its duration in seconds and its audio stream, \<open>None\<close> when the
  file has none.\<close>

record clip =
  clip_duration :: real
  clip_audio :: "unit option"

text \<open>The result of whisper: the dictionary with the key \<open>"segments"\<close>.\<close>

record transcription =
  segments :: "segment list"

record chat_message =
  role :: string
  content :: string

text \<open>The keyword arguments of \<open>client.chat.completions.create\<close>.\<close>

record chat_request =
  model :: string
  messages :: "chat_message list"
  temperature :: real

text \<open>The answers of the collaborators in one run: opening a clip, transcribing a
  file, and the text \<open>response.choices[0].message.content\<close> of a chat completion.\<close>

record world =
  open_clip :: "string \<Rightarrow> py_exception + clip"
  whisper_transcribe :: "string \<Rightarrow> py_exception + transcription"
  chat_create :: "chat_request \<Rightarrow> py_exception + string"

text \<open>The observable effects: the files given to whisper, the requests sent to the
  chat client and the lines printed, each in order.\<close>

record effects =
  whisper_calls :: "string list"
  chat_calls :: "chat_request list"
  stdout :: "string list"

definition print :: "string \<Rightarrow> effects \<Rightarrow> effects" where
  "print line fx = fx\<lparr>stdout := stdout fx @ [line]\<rparr>"

section \<open>get\_video\_duration\<close>

text \<open>
  \<^verbatim>\<open>
  with VideoFileClip(video_path) as video:
      duration = video.duration
      hours = int(duration // 3600)
      minutes = int((duration % 3600) // 60)
      seconds = int(duration % 60)
      return f"{hours}:{minutes}:{seconds}"
  \<close>
  \<open>coarse_duration\<close> is the body of the \<open>with\<close> block, as a function of the duration.
\<close>

definition coarse_duration :: "real \<Rightarrow> string" where
  "coarse_duration duration =
     (let hours = py_int (py_floordiv duration 3600);
          minutes = py_int (py_floordiv (py_mod duration 3600) 60);
          seconds = py_int (py_mod duration 60)
      in str_int hours @ '':'' @ str_int minutes @ '':'' @ str_int seconds)"

definition get_video_duration :: "world \<Rightarrow> string \<Rightarrow> py_exception + string" where
  "get_video_duration w video_path =
     (case open_clip w video_path of
        Inl e \<Rightarrow> Inl e
      | Inr video \<Rightarrow> Inr (coarse_duration (clip_duration video)))"

section \<open>transcribe\<close>

text \<open>
  \<^verbatim>\<open>
  try:
      with VideoFileClip(video_path) as video:
          if video.audio is None:
              raise ValueError("File does not contain an audio stream.")
      result = whisper_model.transcribe(video_path, **options.__dict__, verbose=False)
      return result
  except ValueError as e:
      print(f"Error transcribing video: {e}")
      return None
  except Exception as e:
      print(f"Unexpected error transcribing video: {e}")
      return None
  \<close>
  \<open>transcribe_try\<close> is the body of the \<open>try\<close>; \<open>transcribe\<close> puts the two handlers
  around it. The decoding options given to whisper are the same in every call and are
  left out of the record of the call.
\<close>

definition transcribe_try :: "world \<Rightarrow> string \<Rightarrow> effects \<Rightarrow> (py_exception + transcription) \<times> effects" where
  "transcribe_try w video_path fx =
     (case open_clip w video_path of
        Inl e \<Rightarrow> (Inl e, fx)
      | Inr video \<Rightarrow>
          if clip_audio video = None
          then (Inl (ValueError ''File does not contain an audio stream.''), fx)
          else (whisper_transcribe w video_path,
                fx\<lparr>whisper_calls := whisper_calls fx @ [video_path]\<rparr>))"

definition transcribe :: "world \<Rightarrow> string \<Rightarrow> effects \<Rightarrow> (py_exception + transcription option) \<times> effects" where
  "transcribe w video_path fx =
     (case transcribe_try w video_path fx of
        (Inr result, fx') \<Rightarrow> (Inr (Some result), fx')
      | (Inl (ValueError m), fx') \<Rightarrow>
          (Inr None, print (''Error transcribing video: '' @ m) fx')
      | (Inl (OtherException c m), fx') \<Rightarrow>
          (Inr None, print (''Unexpected error transcribing video: '' @ m) fx'))"

section \<open>generate\_summary\<close>

text \<open>The content of the system message, the triple-quoted string of the source with
  its line breaks and indentation.\<close>

definition system_prompt :: string where
  "system_prompt =
     ''You are a helpful assistant that will summarize\<newline>'' @
     ''                           audio transcripts and generate YouTube video\<newline>'' @
     ''                           timestamps for important topics in the transcript.\<newline>'' @
     ''                           You will adhere to YouTube video timestamp format.\<newline>'' @
     ''                           The format expects the timestamps to be formatted as\<newline>'' @
     ''                           `HH:MM:SS` for videos longer than an hour and as `MM:SS`\<newline>'' @
     ''                           for videos less than an hour. For example, a video\<newline>'' @
     ''                           with a length of 00:59:59 (provided as `HH:MM:SS`)\<newline>'' @
     ''                           would have timestamps formatted as `MM:SS`, with a min\<newline>'' @
     ''                           value of 00:00 and a max value of 59:59. \<newline>'' @
     ''                           \<newline>'' @
     ''                           The timestamps should consider segments in the\<newline>'' @
     ''                           transcript but not include each segment but only\<newline>'' @
     ''                           summarize the general themes. The timestamps should\<newline>'' @
     ''                           not exceed the full length of the video. Segments\<newline>'' @
     ''                           will be provided in SRT format `HH:MM:SS,MS -->\<newline>'' @
     ''                           HH:MM:SS,MS` to assist with YouTube timestamp chapter\<newline>'' @
     ''                           generation. You should not generate a summary for\<newline>'' @
     ''                           each SRT segment, but rather, generate a set of\<newline>'' @
     ''                           summary YouTube timestamps that can be used as key\<newline>'' @
     ''                           points across all segments. \<newline>'' @
     ''                           \<newline>'' @
     ''                           For example, a video with\<newline>'' @
     ''                           a length of 00:20:00 might have 8-10 total timestamps\<newline>'' @
     ''                           with the timestamp format `MM:SS`. It might have a\<newline>'' @
     ''                           set of input text that follows the format: \<newline>'' @
     ''                           ```\<newline>'' @
     ''                           1\<newline>'' @
     ''                           00:00:00,000 --> 00:01:00,000\<newline>'' @
     ''                           This is the first sentence of the first segment.\<newline>'' @
     ''                           \<newline>'' @
     ''                           2\<newline>'' @
     ''                           00:01:00,000 --> 00:01:15,000\<newline>'' @
     ''                           This is the second sentence of the second segment.\<newline>'' @
     ''                           \<newline>'' @
     ''                           3\<newline>'' @
     ''                           00:01:15,000 --> 00:02:20,000\<newline>'' @
     ''                           This is the third sentence of the third segment.\<newline>'' @
     ''                           ```\<newline>'' @
     ''                           Which would result in a set of timestamps like:\<newline>'' @
     ''                           ```\<newline>'' @
     ''                           0:00 - Introduction\<newline>'' @
     ''                           1:15 - Topic overview\<newline>'' @
     ''                           etc.\<newline>'' @
     ''                           ```\<newline>'' @
     ''                ''"

text \<open>
  \<^verbatim>\<open>
  response = client.chat.completions.create(
      model="gpt-4o",
      messages=[
          {"role": "system", "content": """..."""},
          {"role": "user",
           "content": f"The following transcript is for a video of length {length}:\n {transcript}"},
      ],
      temperature=0.7,
  )
  return response.choices[0].message.content.strip()
  \<close>
  \<open>summary_request\<close> is the argument of \<open>create\<close>. The parameter \<open>length\<close> of the
  source is \<open>length'\<close> here; \<open>main\<close> passes the duration string.
\<close>

definition summary_request :: "string \<Rightarrow> string \<Rightarrow> chat_request" where
  "summary_request transcript length' =
     \<lparr>model = ''gpt-4o'',
      messages =
        [\<lparr>role = ''system'', content = system_prompt\<rparr>,
         \<lparr>role = ''user'',
          content = ''The following transcript is for a video of length '' @ length' @
                    '':\<newline> '' @ transcript\<rparr>],
      temperature = 7 / 10\<rparr>"

definition generate_summary :: "world \<Rightarrow> string \<Rightarrow> string \<Rightarrow> effects \<Rightarrow> (py_exception + string) \<times> effects" where
  "generate_summary w transcript length' fx =
     (let request = summary_request transcript length';
          fx' = fx\<lparr>chat_calls := chat_calls fx @ [request]\<rparr>
      in case chat_create w request of
           Inl e \<Rightarrow> (Inl e, fx')
         | Inr response \<Rightarrow> (Inr (strip response), fx'))"

section \<open>Predicates of the specification\<close>

text \<open>A full match against a pattern made of character classes: \<open>\d\<close> and literal
  characters. \<open>srt_time_pattern\<close> is \<^verbatim>\<open>\d{2}:\d{2}:\d{2},\d{3}\<close>.\<close>

datatype char_class = Digit | Lit char

definition is_digit :: "char \<Rightarrow> bool" where
  "is_digit c = (c \<in> set ''0123456789'')"

fun match_class :: "char_class \<Rightarrow> char \<Rightarrow> bool" where
  "match_class Digit c = is_digit c"
| "match_class (Lit l) c = (c = l)"

fun full_match :: "char_class list \<Rightarrow> string \<Rightarrow> bool" where
  "full_match [] [] = True"
| "full_match (p # ps) (c # cs) = (match_class p c \<and> full_match ps cs)"
| "full_match _ _ = False"

definition srt_time_pattern :: "char_class list" where
  "srt_time_pattern =
     [Digit, Digit, Lit (CHR '':''), Digit, Digit, Lit (CHR '':''),
      Digit, Digit, Lit (CHR '',''), Digit, Digit, Digit]"

text \<open>The order of Python's \<open><=\<close> on strings: lexicographic, by code point.\<close>

fun str_le :: "string \<Rightarrow> string \<Rightarrow> bool" where
  "str_le [] ys = True"
| "str_le (x # xs) [] = False"
| "str_le (x # xs) (y # ys) = (if x = y then str_le xs ys else (of_char x :: nat) < of_char y)"

section \<open>Digits, padding and the fields of a time code\<close>

lemma digit_cases: "d < 10 \<Longrightarrow> d = 0 \<or> d = 1 \<or> d = 2 \<or> d = 3 \<or> d = 4 \<or> d = 5 \<or> d = 6 \<or> d = 7 \<or> d = 8 \<or> d = (9::nat)"
  by arith

lemma digit_char_0: "digit_char 0 = CHR ''0''"
  by (simp add: digit_char_def)

lemma of_char_digit_char: "d < 10 \<Longrightarrow> (of_char (digit_char d) :: nat) = 48 + d"
  using digit_cases [of d] by (auto simp: digit_char_def)

lemma is_digit_digit_char: "d < 10 \<Longrightarrow> is_digit (digit_char d)"
  using digit_cases [of d] by (auto simp: digit_char_def is_digit_def)

lemma digit_char_inj: "a < 10 \<Longrightarrow> b < 10 \<Longrightarrow> digit_char a = digit_char b \<Longrightarrow> a = b"
proof -
  assume a: "a < 10" and b: "b < 10" and eq: "digit_char a = digit_char b"
  have "48 + a = (of_char (digit_char a) :: nat)"
    using a by (simp only: of_char_digit_char)
  also have "\<dots> = of_char (digit_char b)"
    by (simp only: eq)
  also have "\<dots> = 48 + b"
    using b by (simp only: of_char_digit_char)
  finally show "a = b" by simp
qed

lemma str_nat_lt10: "n < 10 \<Longrightarrow> str_nat n = [digit_char n]"
  by (simp add: str_nat.simps)

lemma str_nat_lt100: "10 \<le> n \<Longrightarrow> n < 100 \<Longrightarrow> str_nat n = [digit_char (n div 10), digit_char (n mod 10)]"
  by (subst str_nat.simps) (simp add: str_nat_lt10)

lemma str_nat_lt1000: "100 \<le> n \<Longrightarrow> n < 1000 \<Longrightarrow>
  str_nat n = [digit_char (n div 100), digit_char (n div 10 mod 10), digit_char (n mod 10)]"
proof -
  assume a: "100 \<le> n" "n < 1000"
  have d: "n div 10 div 10 = n div 100"
    by (simp add: div_mult2_eq [symmetric])
  from a have "10 \<le> n div 10" "n div 10 < 100" by simp_all
  then have "str_nat (n div 10) = [digit_char (n div 10 div 10), digit_char (n div 10 mod 10)]"
    by (rule str_nat_lt100)
  with a d show ?thesis
    by (subst str_nat.simps) simp
qed

lemma length_str_nat_pos: "1 \<le> length (str_nat n)"
  by (subst str_nat.simps) simp

lemma length_str_nat_ge10: "10 \<le> n \<Longrightarrow> 2 \<le> length (str_nat n)"
proof -
  assume "10 \<le> n"
  then have "str_nat n = str_nat (n div 10) @ [digit_char (n mod 10)]"
    by (subst str_nat.simps) simp
  with length_str_nat_pos [of "n div 10"] show ?thesis by simp
qed

lemma length_str_nat_ge100: "100 \<le> n \<Longrightarrow> 3 \<le> length (str_nat n)"
proof -
  assume a: "100 \<le> n"
  then have "str_nat n = str_nat (n div 10) @ [digit_char (n mod 10)]"
    by (subst str_nat.simps) simp
  moreover from a have "2 \<le> length (str_nat (n div 10))"
    by (intro length_str_nat_ge10) simp
  ultimately show ?thesis by simp
qed

lemma format_0d_2: "n < 100 \<Longrightarrow> format_0d 2 (int n) = [digit_char (n div 10), digit_char (n mod 10)]"
  by (cases "n < 10") (simp_all add: format_0d_def zfill_def str_nat_lt10 str_nat_lt100 digit_char_0)

lemma format_0d_3: "n < 1000 \<Longrightarrow>
  format_0d 3 (int n) = [digit_char (n div 100), digit_char (n div 10 mod 10), digit_char (n mod 10)]"
proof -
  assume n: "n < 1000"
  consider "n < 10" | "10 \<le> n" "n < 100" | "100 \<le> n" by linarith
  then show ?thesis
  proof cases
    case 1 then show ?thesis by (simp add: format_0d_def zfill_def str_nat_lt10 numeral_2_eq_2 digit_char_0)
  next
    case 2 then show ?thesis by (simp add: format_0d_def zfill_def str_nat_lt100 digit_char_0)
  next
    case 3 with n show ?thesis by (simp add: format_0d_def zfill_def str_nat_lt1000)
  qed
qed

lemma format_0d_neg: "i < 0 \<Longrightarrow> hd (format_0d w i) = CHR ''-''"
  by (simp add: format_0d_def)

lemma length_format_0d_2_ge100: "100 \<le> i \<Longrightarrow> 3 \<le> length (format_0d 2 i)"
  using length_str_nat_ge100 [of "nat i"] by (simp add: format_0d_def zfill_def) linarith


lemma py_int_of_int: "py_int (of_int k) = k"
  by (simp add: py_int_def)

lemma py_int_nonneg: "0 \<le> x \<Longrightarrow> py_int x = \<lfloor>x\<rfloor>"
  by (simp add: py_int_def)

lemma py_floordiv_numeral: "py_floordiv x (numeral k) = of_int (\<lfloor>x\<rfloor> div numeral k)"
  using floor_divide_real_eq_div [of "numeral k" x] by (simp add: py_floordiv_def)

lemma py_mod_numeral: "py_mod x (numeral k) = x - of_int (\<lfloor>x\<rfloor> div numeral k) * numeral k"
  using floor_divide_real_eq_div [of "numeral k" x] by (simp add: py_mod_def)

lemma floor_py_mod: "\<lfloor>py_mod x (numeral k)\<rfloor> = \<lfloor>x\<rfloor> mod numeral k"
proof -
  have "py_mod x (numeral k) = x - of_int (\<lfloor>x\<rfloor> div numeral k * numeral k)"
    by (simp add: py_mod_numeral)
  then have "\<lfloor>py_mod x (numeral k)\<rfloor> = \<lfloor>x\<rfloor> - \<lfloor>x\<rfloor> div numeral k * numeral k"
    by (simp only: floor_diff_of_int)
  then show ?thesis
    by (simp add: minus_div_mult_eq_mod)
qed

lemma py_mod_nonneg: "0 \<le> py_mod x (numeral k)"
proof -
  have "of_int \<lfloor>x / numeral k\<rfloor> \<le> x / numeral k" by (rule of_int_floor_le)
  then have "of_int \<lfloor>x / numeral k\<rfloor> * numeral k \<le> x"
    by (simp add: pos_le_divide_eq)
  then show ?thesis by (simp add: py_mod_def)
qed

lemma frac_py_mod: "py_mod x (numeral k) - of_int \<lfloor>py_mod x (numeral k)\<rfloor> = x - of_int \<lfloor>x\<rfloor>"
proof -
  have "of_int \<lfloor>py_mod x (numeral k)\<rfloor> = (of_int \<lfloor>x\<rfloor> :: real) - of_int (\<lfloor>x\<rfloor> div numeral k) * numeral k"
    by (simp add: floor_py_mod flip: minus_div_mult_eq_mod)
  then show ?thesis by (simp add: py_mod_numeral)
qed

lemma millis: "py_int ((x - of_int \<lfloor>x\<rfloor>) * 1000) = \<lfloor>x * 1000\<rfloor> - 1000 * \<lfloor>x\<rfloor>"
proof -
  define y where "y = (x - of_int \<lfloor>x\<rfloor>) * 1000"
  have "0 \<le> y" by (simp add: y_def)
  then have a: "py_int y = \<lfloor>y\<rfloor>"
    by (rule py_int_nonneg)
  have b: "y = x * 1000 - of_int (1000 * \<lfloor>x\<rfloor>)"
    by (simp add: y_def algebra_simps)
  have "\<lfloor>y\<rfloor> = \<lfloor>x * 1000\<rfloor> - 1000 * \<lfloor>x\<rfloor>"
    unfolding b by (rule floor_diff_of_int)
  with a show ?thesis
    by (simp only: y_def)
qed

lemma format_time_components:
  "format_time s =
     format_0d 2 (\<lfloor>s\<rfloor> div 3600) @ '':'' @ format_0d 2 (\<lfloor>s\<rfloor> mod 3600 div 60) @ '':'' @
     format_0d 2 (\<lfloor>s\<rfloor> mod 60) @ '','' @ format_0d 3 (\<lfloor>s * 1000\<rfloor> - 1000 * \<lfloor>s\<rfloor>)"
proof -
  define r where "r = py_mod s 3600"
  define t where "t = py_mod r 60"
  have r0: "0 \<le> r" unfolding r_def by (rule py_mod_nonneg)
  have t0: "0 \<le> t" unfolding t_def by (rule py_mod_nonneg)
  have fr: "\<lfloor>r\<rfloor> = \<lfloor>s\<rfloor> mod 3600" unfolding r_def by (rule floor_py_mod)
  have ft: "\<lfloor>t\<rfloor> = \<lfloor>s\<rfloor> mod 60"
  proof -
    have "\<lfloor>t\<rfloor> = \<lfloor>r\<rfloor> mod 60" unfolding t_def by (rule floor_py_mod)
    also have "\<dots> = \<lfloor>s\<rfloor> mod 3600 mod 60" by (simp only: fr)
    also have "\<dots> = \<lfloor>s\<rfloor> mod 60" by (simp add: mod_mod_cancel)
    finally show ?thesis .
  qed
  have frac: "t - of_int \<lfloor>t\<rfloor> = s - of_int \<lfloor>s\<rfloor>"
    unfolding t_def r_def by (simp only: frac_py_mod)
  have hours: "py_int (py_floordiv s 3600) = \<lfloor>s\<rfloor> div 3600"
    by (simp only: py_floordiv_numeral py_int_of_int)
  have minutes: "py_int (py_floordiv r 60) = \<lfloor>s\<rfloor> mod 3600 div 60"
    by (simp only: py_floordiv_numeral py_int_of_int fr)
  have secs: "py_int t = \<lfloor>s\<rfloor> mod 60"
    using t0 by (simp only: py_int_nonneg ft)
  have ms: "py_int ((t - of_int (py_int t)) * 1000) = \<lfloor>s * 1000\<rfloor> - 1000 * \<lfloor>s\<rfloor>"
  proof -
    have "py_int t = \<lfloor>t\<rfloor>" using t0 by (rule py_int_nonneg)
    then have "(t - of_int (py_int t)) * 1000 = (s - of_int \<lfloor>s\<rfloor>) * 1000"
      by (simp only: frac)
    then show ?thesis by (simp only: millis)
  qed
  have "format_time s =
     format_0d 2 (py_int (py_floordiv s 3600)) @ '':'' @ format_0d 2 (py_int (py_floordiv r 60)) @ '':'' @
     format_0d 2 (py_int t) @ '','' @ format_0d 3 (py_int ((t - of_int (py_int t)) * 1000))"
    by (simp add: format_time_def py_divmod_def r_def t_def Let_def)
  then show ?thesis
    by (simp only: hours minutes secs ms [unfolded secs])
qed


lemma format_0d_2_int:
  "0 \<le> i \<Longrightarrow> i < 100 \<Longrightarrow> format_0d 2 i = [digit_char (nat i div 10), digit_char (nat i mod 10)]"
  using format_0d_2 [of "nat i"] by simp

lemma format_0d_3_int:
  "0 \<le> i \<Longrightarrow> i < 1000 \<Longrightarrow>
   format_0d 3 i = [digit_char (nat i div 100), digit_char (nat i div 10 mod 10), digit_char (nat i mod 10)]"
  using format_0d_3 [of "nat i"] by simp

lemma millis_range: "0 \<le> \<lfloor>s * 1000\<rfloor> - 1000 * \<lfloor>s\<rfloor> \<and> \<lfloor>s * 1000\<rfloor> - 1000 * \<lfloor>s\<rfloor> < 1000" for s :: real
proof -
  have "of_int (1000 * \<lfloor>s\<rfloor>) \<le> s * 1000"
    using of_int_floor_le [of s] by simp
  then have lo: "1000 * \<lfloor>s\<rfloor> \<le> \<lfloor>s * 1000\<rfloor>"
    by (simp only: le_floor_iff)
  have a: "s < of_int \<lfloor>s\<rfloor> + 1"
    by linarith
  have "s * 1000 < (of_int \<lfloor>s\<rfloor> + 1) * 1000"
    by (rule mult_strict_right_mono [OF a]) simp
  also have "\<dots> = of_int (1000 * \<lfloor>s\<rfloor> + 1000)"
    by simp
  finally have hi: "\<lfloor>s * 1000\<rfloor> < 1000 * \<lfloor>s\<rfloor> + 1000"
    by (simp only: floor_less_iff)
  from lo hi show ?thesis by simp
qed

lemma full_match_length: "full_match ps cs \<Longrightarrow> length cs = length ps"
  by (induction ps cs rule: full_match.induct) simp_all

lemma two_digits: "n < 100 \<Longrightarrow> n div 10 < (10::nat) \<and> n mod 10 < 10"
  by simp

lemma three_digits: "n < 1000 \<Longrightarrow> n div 100 < (10::nat) \<and> n div 10 mod 10 < 10 \<and> n mod 10 < 10"
  by simp

lemma format_time_match_lt:
  assumes "0 \<le> s" and "s < 360000"
  shows "full_match srt_time_pattern (format_time s)"
proof -
  have f0: "0 \<le> \<lfloor>s\<rfloor>" using assms(1) by simp
  have f1: "\<lfloor>s\<rfloor> < 360000" using assms(2) by (simp add: floor_less_iff)
  have h: "0 \<le> \<lfloor>s\<rfloor> div 3600" "\<lfloor>s\<rfloor> div 3600 < 100"
    using f0 f1 by arith+
  have m: "0 \<le> \<lfloor>s\<rfloor> mod 3600 div 60" "\<lfloor>s\<rfloor> mod 3600 div 60 < 60"
    by simp_all
  have c: "0 \<le> \<lfloor>s\<rfloor> mod 60" "\<lfloor>s\<rfloor> mod 60 < 60"
    by simp_all
  have x: "0 \<le> \<lfloor>s * 1000\<rfloor> - 1000 * \<lfloor>s\<rfloor>" "\<lfloor>s * 1000\<rfloor> - 1000 * \<lfloor>s\<rfloor> < 1000"
    using millis_range [of s] by simp_all
  define hn where "hn = nat (\<lfloor>s\<rfloor> div 3600)"
  define mn where "mn = nat (\<lfloor>s\<rfloor> mod 3600 div 60)"
  define cn where "cn = nat (\<lfloor>s\<rfloor> mod 60)"
  define xn where "xn = nat (\<lfloor>s * 1000\<rfloor> - 1000 * \<lfloor>s\<rfloor>)"
  have b: "hn < 100" "mn < 100" "cn < 100" "xn < 1000"
    using h m c x by (simp_all add: hn_def mn_def cn_def xn_def)
  have eq: "format_time s =
      [digit_char (hn div 10), digit_char (hn mod 10), CHR '':'',
       digit_char (mn div 10), digit_char (mn mod 10), CHR '':'',
       digit_char (cn div 10), digit_char (cn mod 10), CHR '','',
       digit_char (xn div 100), digit_char (xn div 10 mod 10), digit_char (xn mod 10)]"
    using h m c x
    by (simp add: format_time_components format_0d_2_int format_0d_3_int hn_def mn_def cn_def xn_def)
  show ?thesis
    unfolding eq srt_time_pattern_def
    using two_digits [OF b(1)] two_digits [OF b(2)] two_digits [OF b(3)] three_digits [OF b(4)]
    by (simp add: is_digit_digit_char)
qed

lemma format_time_no_match_ge:
  assumes "360000 \<le> s"
  shows "\<not> full_match srt_time_pattern (format_time s)"
proof
  assume fm: "full_match srt_time_pattern (format_time s)"
  have "360000 \<le> \<lfloor>s\<rfloor>" using assms by (simp add: le_floor_iff)
  then have "100 \<le> \<lfloor>s\<rfloor> div 3600" by arith
  then have l1: "3 \<le> length (format_0d 2 (\<lfloor>s\<rfloor> div 3600))"
    by (rule length_format_0d_2_ge100)
  have l2: "length (format_0d 2 (\<lfloor>s\<rfloor> mod 3600 div 60)) = 2"
    by (simp add: format_0d_2_int)
  have l3: "length (format_0d 2 (\<lfloor>s\<rfloor> mod 60)) = 2"
    by (simp add: format_0d_2_int)
  have l4: "length (format_0d 3 (\<lfloor>s * 1000\<rfloor> - 1000 * \<lfloor>s\<rfloor>)) = 3"
    using millis_range [of s] by (simp add: format_0d_3_int)
  have "13 \<le> length (format_time s)"
    using l1 l2 l3 l4 by (simp add: format_time_components)
  moreover have "length (format_time s) = 12"
    using full_match_length [OF fm] by (simp add: srt_time_pattern_def)
  ultimately show False by simp
qed

section \<open>Claims about format\_time\<close>

text \<open>
  C1 (as stated: every non-negative number of seconds gives a string that fully matches
  \<^verbatim>\<open>\d{2}:\d{2}:\d{2},\d{3}\<close>). The format specification \<open>02d\<close> is a minimum width:
  from 100 hours on the hours field has three digits, and the string does not match.
\<close>

theorem format_time_pattern_counterexample:
  "(0::real) \<le> 360000 \<and> format_time 360000 = ''100:00:00,000'' \<and>
   \<not> full_match srt_time_pattern (format_time 360000)"
  by code_simp

text \<open>
  C1, amended: for a non-negative number of seconds below 360000 (100 hours) the string
  fully matches the pattern, and for a non-negative number of seconds from 360000 on it
  does not.
\<close>

theorem format_time_pattern:
  "0 \<le> s \<Longrightarrow> full_match srt_time_pattern (format_time s) \<longleftrightarrow> s < 360000"
  using format_time_match_lt [of s] format_time_no_match_ge [of s] by fastforce

theorem format_time_pattern_witness:
  "(0::real) \<le> 7323 / 2 \<and> format_time (7323 / 2) = ''01:01:01,500'' \<and>
   full_match srt_time_pattern (format_time (7323 / 2))"
proof -
  have v: "format_time (7323 / 2) = ''01:01:01,500''"
    by code_simp
  have "full_match srt_time_pattern (format_time (7323 / 2))"
    using format_time_pattern [of "7323 / 2"] by simp
  with v show ?thesis by simp
qed

text \<open>
  C9 (as stated: a negative input is rejected with a validation error). The function
  checks nothing: at \<open>-1.5\<close> it returns a string, with a minus sign in the hours field.
\<close>

theorem format_time_negative_counterexample:
  "(- 3 / 2 :: real) < 0 \<and> format_time (- 3 / 2) = ''-1:59:58,500''"
  by code_simp

text \<open>
  C9, amended: for every negative input the formatter returns a string without any
  validation; the string begins with a minus sign, so it does not match the pattern
  of a time code.
\<close>

theorem format_time_negative:
  assumes "s < 0"
  shows "hd (format_time s) = CHR ''-'' \<and> \<not> full_match srt_time_pattern (format_time s)"
proof -
  have "\<lfloor>s\<rfloor> < 0" using assms by (simp add: floor_less_iff)
  then have neg: "\<lfloor>s\<rfloor> div 3600 < 0" by arith
  then have "format_0d 2 (\<lfloor>s\<rfloor> div 3600) = CHR ''-'' # zfill 1 (str_nat (nat (- (\<lfloor>s\<rfloor> div 3600))))"
    by (simp add: format_0d_def)
  then obtain rest where eq: "format_time s = CHR ''-'' # rest"
    by (simp add: format_time_components)
  show ?thesis
    unfolding eq by (cases rest) (simp_all add: srt_time_pattern_def is_digit_def)
qed

theorem format_time_negative_witness:
  "(- 36000 :: real) < 0 \<and> hd (format_time (- 36000)) = CHR ''-'' \<and>
   \<not> full_match srt_time_pattern (format_time (- 36000))"
  using format_time_negative [of "- 36000"] by simp

section \<open>Claims about transcribe\<close>

text \<open>
  C5: when the opened clip has no audio stream, the body of the \<open>try\<close> raises the
  no-audio \<open>ValueError\<close> and whisper is not called: the list of whisper calls is
  unchanged. \<open>transcribe\<close> then prints the message of that error and returns \<open>None\<close>.
\<close>

theorem transcribe_no_audio:
  assumes "open_clip w video_path = Inr video" and "clip_audio video = None"
  shows "transcribe_try w video_path fx =
           (Inl (ValueError ''File does not contain an audio stream.''), fx) \<and>
         transcribe w video_path fx =
           (Inr None,
            fx\<lparr>stdout := stdout fx @
               [''Error transcribing video: File does not contain an audio stream.'']\<rparr>) \<and>
         whisper_calls (snd (transcribe w video_path fx)) = whisper_calls fx"
  using assms by (simp add: transcribe_def transcribe_try_def print_def)

text \<open>The hypotheses of C5 at a concrete world: a clip without audio.\<close>

theorem transcribe_no_audio_witness:
  "transcribe
     \<lparr>open_clip = (\<lambda>p. Inr \<lparr>clip_duration = 150, clip_audio = None\<rparr>),
      whisper_transcribe = (\<lambda>p. Inr \<lparr>segments = []\<rparr>),
      chat_create = (\<lambda>r. Inr ''0:00 - Introduction'')\<rparr>
     ''silent.mp4''
     \<lparr>whisper_calls = [], chat_calls = [], stdout = []\<rparr> =
   (Inr None,
    \<lparr>whisper_calls = [], chat_calls = [],
     stdout = [''Error transcribing video: File does not contain an audio stream.'']\<rparr>)"
  using transcribe_no_audio
    [of "\<lparr>open_clip = (\<lambda>p. Inr \<lparr>clip_duration = 150, clip_audio = None\<rparr>),
          whisper_transcribe = (\<lambda>p. Inr \<lparr>segments = []\<rparr>),
          chat_create = (\<lambda>r. Inr ''0:00 - Introduction'')\<rparr>"
        "''silent.mp4''" "\<lparr>clip_duration = 150, clip_audio = None\<rparr>"
        "\<lparr>whisper_calls = [], chat_calls = [], stdout = []\<rparr>"]
  by simp

text \<open>
  C6 (as stated: an exception of the transcription collaborator is normalized into an
  error value that carries the collaborator's message). The value returned is \<open>None\<close>
  for two failures with different messages, so it carries no message; the source has no
  error value for a failed transcription.
\<close>

theorem transcribe_loses_message_counterexample:
  "fst (transcribe
     \<lparr>open_clip = (\<lambda>p. Inr \<lparr>clip_duration = 150, clip_audio = Some ()\<rparr>),
      whisper_transcribe = (\<lambda>p. Inl (OtherException ''RuntimeError'' ''out of memory'')),
      chat_create = (\<lambda>r. Inr [])\<rparr>
     ''talk.mp4'' \<lparr>whisper_calls = [], chat_calls = [], stdout = []\<rparr>) = Inr None \<and>
   fst (transcribe
     \<lparr>open_clip = (\<lambda>p. Inr \<lparr>clip_duration = 150, clip_audio = Some ()\<rparr>),
      whisper_transcribe = (\<lambda>p. Inl (OtherException ''RuntimeError'' ''ffmpeg not found'')),
      chat_create = (\<lambda>r. Inr [])\<rparr>
     ''talk.mp4'' \<lparr>whisper_calls = [], chat_calls = [], stdout = []\<rparr>) = Inr None"
  by (simp add: transcribe_def transcribe_try_def print_def)

text \<open>
  C6, amended: every exception raised by the transcription collaborator during
  \<open>transcribe\<close> is caught; \<open>transcribe\<close> prints one line, a fixed prefix followed by
  the collaborator's message, and returns \<open>None\<close>. The prefix is
  \<open>Error transcribing video: \<close> for a \<open>ValueError\<close> and
  \<open>Unexpected error transcribing video: \<close> for any other exception. No exception
  propagates out of \<open>transcribe\<close>.
\<close>

theorem transcribe_collaborator_failure:
  assumes "open_clip w video_path = Inr video" and "clip_audio video \<noteq> None"
    and "whisper_transcribe w video_path = Inl e"
  shows "transcribe w video_path fx =
           (Inr None,
            fx\<lparr>whisper_calls := whisper_calls fx @ [video_path],
               stdout := stdout fx @
                 [(case e of ValueError m \<Rightarrow> ''Error transcribing video: ''
                   | OtherException c m \<Rightarrow> ''Unexpected error transcribing video: '') @
                  exc_message e]\<rparr>)"
  using assms by (cases e) (simp_all add: transcribe_def transcribe_try_def print_def)

text \<open>The hypotheses of the amended C6 at a concrete world: whisper raises.\<close>

theorem transcribe_collaborator_failure_witness:
  "transcribe
     \<lparr>open_clip = (\<lambda>p. Inr \<lparr>clip_duration = 150, clip_audio = Some ()\<rparr>),
      whisper_transcribe = (\<lambda>p. Inl (OtherException ''RuntimeError'' ''out of memory'')),
      chat_create = (\<lambda>r. Inr [])\<rparr>
     ''talk.mp4'' \<lparr>whisper_calls = [], chat_calls = [], stdout = []\<rparr> =
   (Inr None,
    \<lparr>whisper_calls = [''talk.mp4''], chat_calls = [],
     stdout = [''Unexpected error transcribing video: out of memory'']\<rparr>)"
  using transcribe_collaborator_failure
    [of "\<lparr>open_clip = (\<lambda>p. Inr \<lparr>clip_duration = 150, clip_audio = Some ()\<rparr>),
          whisper_transcribe = (\<lambda>p. Inl (OtherException ''RuntimeError'' ''out of memory'')),
          chat_create = (\<lambda>r. Inr [])\<rparr>"
        "''talk.mp4''" "\<lparr>clip_duration = 150, clip_audio = Some ()\<rparr>"
        "OtherException ''RuntimeError'' ''out of memory''"
        "\<lparr>whisper_calls = [], chat_calls = [], stdout = []\<rparr>"]
  by simp

text \<open>
  C10: \<open>transcribe\<close> never lets an exception escape (its outcome is always a returned
  value), and the value is \<open>None\<close> when the clip cannot be opened, when it has no audio
  stream and when whisper fails; only when whisper returns a result is the value that
  result. The caller cannot tell the causes of failure apart from the value.
\<close>

theorem transcribe_total_collapsing:
  "fst (transcribe w video_path fx) =
     (case open_clip w video_path of
        Inl e \<Rightarrow> Inr None
      | Inr video \<Rightarrow>
          (case clip_audio video of
             None \<Rightarrow> Inr None
           | Some a \<Rightarrow>
               (case whisper_transcribe w video_path of
                  Inl e \<Rightarrow> Inr None
                | Inr result \<Rightarrow> Inr (Some result))))"
  by (simp add: transcribe_def transcribe_try_def print_def
      split: sum.splits option.splits py_exception.splits)

section \<open>Claims about generate\_summary\<close>

text \<open>
  C4: for every transcript and duration string, \<open>generate_summary\<close> sends exactly one
  request to the chat client, whether the client answers or raises. Its messages are the
  system message, whose content is the constant \<open>system_prompt\<close> and so the same in
  every call, followed by exactly one user message, whose content contains the duration
  string and the whole transcript.
\<close>

theorem generate_summary_request:
  "\<exists>user_content.
     chat_calls (snd (generate_summary w transcript length' fx)) =
       chat_calls fx @
         [\<lparr>model = ''gpt-4o'',
           messages = [\<lparr>role = ''system'', content = system_prompt\<rparr>,
                       \<lparr>role = ''user'', content = user_content\<rparr>],
           temperature = 7 / 10\<rparr>] \<and>
     sublist length' user_content \<and> sublist transcript user_content"
proof -
  define user_content where
    "user_content = ''The following transcript is for a video of length '' @ length' @
                    '':\<newline> '' @ transcript"
  have calls: "chat_calls (snd (generate_summary w transcript length' fx)) =
       chat_calls fx @
         [\<lparr>model = ''gpt-4o'',
           messages = [\<lparr>role = ''system'', content = system_prompt\<rparr>,
                       \<lparr>role = ''user'', content = user_content\<rparr>],
           temperature = 7 / 10\<rparr>]"
    by (simp add: generate_summary_def summary_request_def Let_def user_content_def
        split: sum.splits)
  have len: "sublist length' user_content"
    unfolding user_content_def by (rule sublist_appendI)
  have "suffix transcript user_content"
    unfolding user_content_def by (rule suffixI) simp
  then have tr: "sublist transcript user_content"
    by (rule suffix_imp_sublist)
  from calls len tr show ?thesis by blast
qed

section \<open>Claims about get\_video\_duration\<close>

lemma coarse_duration_fields:
  "coarse_duration d =
     str_int (\<lfloor>d\<rfloor> div 3600) @ '':'' @ str_int (\<lfloor>d\<rfloor> mod 3600 div 60) @ '':'' @
     str_int (\<lfloor>d\<rfloor> mod 60)"
proof -
  have h: "py_int (py_floordiv d 3600) = \<lfloor>d\<rfloor> div 3600"
    by (simp only: py_floordiv_numeral py_int_of_int)
  have m: "py_int (py_floordiv (py_mod d 3600) 60) = \<lfloor>d\<rfloor> mod 3600 div 60"
    by (simp only: py_floordiv_numeral py_int_of_int floor_py_mod)
  have "0 \<le> py_mod d 60" by (rule py_mod_nonneg)
  then have "py_int (py_mod d 60) = \<lfloor>py_mod d 60\<rfloor>" by (rule py_int_nonneg)
  then have s: "py_int (py_mod d 60) = \<lfloor>d\<rfloor> mod 60"
    by (simp only: floor_py_mod)
  show ?thesis
    unfolding coarse_duration_def Let_def h m s ..
qed

text \<open>
  C7: the coarse duration is \<open>H:M:S\<close>, each field the decimal digits of an integer
  without padding: the hours are the whole seconds divided by 3600, with no upper bound
  (360000 seconds give 100 hours), the minutes and the seconds are what remains.
  3661 seconds give \<open>1:1:1\<close> and 59 seconds give \<open>0:0:59\<close>.
\<close>

theorem coarse_duration_format:
  "coarse_duration d =
     str_int (\<lfloor>d\<rfloor> div 3600) @ '':'' @ str_int (\<lfloor>d\<rfloor> mod 3600 div 60) @ '':'' @
     str_int (\<lfloor>d\<rfloor> mod 60) \<and>
   coarse_duration 3661 = ''1:1:1'' \<and>
   coarse_duration 59 = ''0:0:59'' \<and>
   coarse_duration 360000 = ''100:0:0'' \<and>
   get_video_duration
     \<lparr>open_clip = (\<lambda>p. Inr \<lparr>clip_duration = 3661, clip_audio = Some ()\<rparr>),
      whisper_transcribe = (\<lambda>p. Inr \<lparr>segments = []\<rparr>),
      chat_create = (\<lambda>r. Inr [])\<rparr> ''talk.mp4'' = Inr ''1:1:1''"
proof -
  have a: "coarse_duration 3661 = ''1:1:1''" by code_simp
  have b: "coarse_duration 59 = ''0:0:59''" by code_simp
  have c: "coarse_duration 360000 = ''100:0:0''" by code_simp
  have g: "get_video_duration
     \<lparr>open_clip = (\<lambda>p. Inr \<lparr>clip_duration = 3661, clip_audio = Some ()\<rparr>),
      whisper_transcribe = (\<lambda>p. Inr \<lparr>segments = []\<rparr>),
      chat_create = (\<lambda>r. Inr [])\<rparr> ''talk.mp4'' = Inr ''1:1:1''"
    by (simp add: get_video_duration_def a)
  from coarse_duration_fields [of d] a b c g show ?thesis by blast
qed

section \<open>Claims about segments\_to\_srt\<close>

lemma srt_loop_eq:
  "srt_loop i segs acc = acc @ concat (map (\<lambda>(k, seg). srt_block k seg) (enumerate i segs))"
  by (induction segs arbitrary: i acc) (simp_all add: srt_block_def Let_def)

text \<open>
  C2: the single segment from 0 to 1.25 with the text \<open>Hello\<close> gives the block of
  the specification, and for every list of segments the document is the lines of the
  blocks, four for each segment in the order of the input, joined by newlines.
\<close>

theorem segments_to_srt_blocks:
  "segments_to_srt [\<lparr>seg_start = 0, seg_end = 5 / 4, seg_text = ''Hello''\<rparr>] =
     ''1\<newline>00:00:00,000 --> 00:00:01,250\<newline>Hello\<newline>'' \<and>
   segments_to_srt segs =
     join ''\<newline>'' (concat (map (\<lambda>(k, seg). srt_block k seg) (enumerate 0 segs)))"
proof -
  have ex: "segments_to_srt [\<lparr>seg_start = 0, seg_end = 5 / 4, seg_text = ''Hello''\<rparr>] =
     ''1\<newline>00:00:00,000 --> 00:00:01,250\<newline>Hello\<newline>''"
    by code_simp
  have "segments_to_srt segs =
     join ''\<newline>'' (concat (map (\<lambda>(k, seg). srt_block k seg) (enumerate 0 segs)))"
    by (simp add: segments_to_srt_def srt_loop_eq)
  with ex show ?thesis by blast
qed

lemma concat_nth4:
  "\<forall>b \<in> set bs. length b = 4 \<Longrightarrow> k < length bs \<Longrightarrow> j < 4 \<Longrightarrow>
   concat bs ! (4 * k + j) = bs ! k ! j"
proof (induction bs arbitrary: k)
  case Nil
  then show ?case by simp
next
  case (Cons b bs)
  show ?case
  proof (cases k)
    case 0
    with Cons.prems show ?thesis by (simp add: nth_append)
  next
    case (Suc k')
    with Cons.prems have "concat bs ! (4 * k' + j) = bs ! k' ! j"
      by (intro Cons.IH) simp_all
    moreover have "length b = 4" using Cons.prems by simp
    ultimately show ?thesis using Suc by (simp add: nth_append)
  qed
qed

lemma length_concat4: "\<forall>b \<in> set bs. length b = 4 \<Longrightarrow> length (concat bs) = 4 * length bs"
  by (induction bs) simp_all

lemma srt_loop_length: "length (srt_loop 0 segs []) = 4 * length segs"
  by (simp add: srt_loop_eq length_concat4 srt_block_def split_beta)

lemma srt_loop_nth:
  assumes "k < length segs" and "j < 4"
  shows "srt_loop 0 segs [] ! (4 * k + j) = srt_block k (segs ! k) ! j"
proof -
  let ?bs = "map (\<lambda>(k, seg). srt_block k seg) (enumerate 0 segs)"
  have "\<forall>b \<in> set ?bs. length b = 4"
    by (auto simp: srt_block_def)
  moreover have "k < length ?bs" using assms(1) by simp
  ultimately have "concat ?bs ! (4 * k + j) = ?bs ! k ! j"
    using assms(2) by (rule concat_nth4)
  also have "?bs ! k = srt_block k (segs ! k)"
    using assms(1) by (simp add: nth_enumerate_eq)
  finally show ?thesis by (simp add: srt_loop_eq)
qed

text \<open>
  C3: the empty list gives the empty string. For \<open>n\<close> segments the document is made
  of \<open>4 * n\<close> lines, that is \<open>n\<close> blocks; the first lines of the blocks are the
  numbers \<open>1, \<dots>, n\<close> in this order, and the second and third lines of the blocks are
  the time ranges and the trimmed texts of the segments in the order of the input.
\<close>

theorem segments_to_srt_indices:
  "segments_to_srt [] = [] \<and>
   segments_to_srt segs = join ''\<newline>'' (srt_loop 0 segs []) \<and>
   length (srt_loop 0 segs []) = 4 * length segs \<and>
   map (\<lambda>k. srt_loop 0 segs [] ! (4 * k)) [0..<length segs] =
     map (\<lambda>k. str_int (int k + 1)) [0..<length segs] \<and>
   map (\<lambda>k. srt_loop 0 segs [] ! (4 * k + 1)) [0..<length segs] =
     map (\<lambda>seg. format_time (seg_start seg) @ '' --> '' @ format_time (seg_end seg)) segs \<and>
   map (\<lambda>k. srt_loop 0 segs [] ! (4 * k + 2)) [0..<length segs] =
     map (\<lambda>seg. strip (seg_text seg)) segs \<and>
   map (\<lambda>k. srt_loop 0 segs [] ! (4 * k + 3)) [0..<length segs] =
     map (\<lambda>seg. []) segs"
proof -
  have e: "segments_to_srt [] = []" by (simp add: segments_to_srt_def)
  have d: "segments_to_srt segs = join ''\<newline>'' (srt_loop 0 segs [])"
    by (simp add: segments_to_srt_def)
  have i0: "map (\<lambda>k. srt_loop 0 segs [] ! (4 * k)) [0..<length segs] =
     map (\<lambda>k. str_int (int k + 1)) [0..<length segs]"
    using srt_loop_nth [of _ segs 0] by (simp add: srt_block_def)
  have i1: "map (\<lambda>k. srt_loop 0 segs [] ! (4 * k + 1)) [0..<length segs] =
     map (\<lambda>seg. format_time (seg_start seg) @ '' --> '' @ format_time (seg_end seg)) segs"
    using srt_loop_nth [of _ segs 1] by (intro nth_equalityI) (simp_all add: srt_block_def)
  have i2: "map (\<lambda>k. srt_loop 0 segs [] ! (4 * k + 2)) [0..<length segs] =
     map (\<lambda>seg. strip (seg_text seg)) segs"
    using srt_loop_nth [of _ segs 2] by (intro nth_equalityI) (simp_all add: srt_block_def)
  have i3: "map (\<lambda>k. srt_loop 0 segs [] ! (4 * k + 3)) [0..<length segs] =
     map (\<lambda>seg. []) segs"
    using srt_loop_nth [of _ segs 3] by (intro nth_equalityI) (simp_all add: srt_block_def)
  from e d srt_loop_length [of segs] i0 i1 i2 i3 show ?thesis by blast
qed

section \<open>The order of time codes\<close>

lemma str_le_refl: "str_le xs xs"
  by (induction xs) simp_all

lemma str_le_append_same: "str_le (p @ xs) (p @ ys) = str_le xs ys"
  by (induction p) simp_all

lemma str_le_append_neq:
  "length a = length c \<Longrightarrow> a \<noteq> c \<Longrightarrow> str_le a c \<Longrightarrow> str_le (a @ b) (c @ d)"
  by (induction a c rule: list_induct2) (auto split: if_splits)

lemma digit_char_lt:
  assumes "a < b" and "b < 10"
  shows "digit_char a \<noteq> digit_char b \<and> (of_char (digit_char a) :: nat) < of_char (digit_char b)"
proof -
  have a: "(of_char (digit_char a) :: nat) = 48 + a"
    using assms by (intro of_char_digit_char) simp
  have b: "(of_char (digit_char b) :: nat) = 48 + b"
    using assms by (intro of_char_digit_char) simp
  from a b assms(1) have lt: "(of_char (digit_char a) :: nat) < of_char (digit_char b)"
    by simp
  then have "digit_char a \<noteq> digit_char b" by auto
  with lt show ?thesis by simp
qed

lemma divmod_lt_nat:
  fixes a b k :: nat
  assumes "a < b"
  shows "a div k < b div k \<or> (a div k = b div k \<and> a mod k < b mod k)"
proof (cases "a div k = b div k")
  case True
  have "k * (a div k) + a mod k = a" "k * (b div k) + b mod k = b"
    by (rule mult_div_mod_eq)+
  moreover have "k * (a div k) = k * (b div k)" using True by simp
  ultimately have "a mod k < b mod k" using assms by linarith
  with True show ?thesis by simp
next
  case False
  moreover have "a div k \<le> b div k" using assms by (simp add: div_le_mono)
  ultimately show ?thesis by simp
qed

lemma divmod_le_nat:
  fixes a b k :: nat
  assumes "a \<le> b"
  shows "a div k < b div k \<or> (a div k = b div k \<and> a mod k \<le> b mod k)"
proof (cases "a = b")
  case True
  then show ?thesis by simp
next
  case False
  with assms have "a < b" by simp
  then show ?thesis using divmod_lt_nat [of a b k] by auto
qed

lemma divmod_le_int:
  fixes a b k :: int
  assumes "a \<le> b" and "0 < k"
  shows "a div k < b div k \<or> (a div k = b div k \<and> a mod k \<le> b mod k)"
proof (cases "a div k = b div k")
  case True
  have "k * (a div k) + a mod k = a" "k * (b div k) + b mod k = b"
    by (rule mult_div_mod_eq)+
  moreover have "k * (a div k) = k * (b div k)" using True by simp
  ultimately have "a mod k \<le> b mod k" using assms(1) by linarith
  with True show ?thesis by simp
next
  case False
  moreover have "a div k \<le> b div k" using assms by (simp add: zdiv_mono1)
  ultimately show ?thesis by simp
qed

lemma pad2_lt:
  assumes "a < b" and "b < 100"
  shows "format_0d 2 (int a) \<noteq> format_0d 2 (int b) \<and>
         str_le (format_0d 2 (int a)) (format_0d 2 (int b)) \<and>
         length (format_0d 2 (int a)) = length (format_0d 2 (int b))"
proof -
  have ea: "format_0d 2 (int a) = [digit_char (a div 10), digit_char (a mod 10)]"
    using assms by (intro format_0d_2) simp
  have eb: "format_0d 2 (int b) = [digit_char (b div 10), digit_char (b mod 10)]"
    using assms by (intro format_0d_2) simp
  from assms(1) have "a div 10 < b div 10 \<or> (a div 10 = b div 10 \<and> a mod 10 < b mod 10)"
    by (rule divmod_lt_nat)
  then consider "a div 10 < b div 10" | "a div 10 = b div 10" "a mod 10 < b mod 10"
    by blast
  then show ?thesis
  proof cases
    case 1
    moreover have "b div 10 < 10" using assms(2) by simp
    ultimately have "digit_char (a div 10) \<noteq> digit_char (b div 10) \<and>
        (of_char (digit_char (a div 10)) :: nat) < of_char (digit_char (b div 10))"
      by (rule digit_char_lt)
    then show ?thesis by (simp add: ea eb)
  next
    case 2
    have "digit_char (a mod 10) \<noteq> digit_char (b mod 10) \<and>
        (of_char (digit_char (a mod 10)) :: nat) < of_char (digit_char (b mod 10))"
      using 2(2) by (rule digit_char_lt) simp
    then show ?thesis by (simp add: ea eb 2(1))
  qed
qed

lemma pad3_le:
  assumes "a \<le> b" and "b < 1000"
  shows "str_le (format_0d 3 (int a)) (format_0d 3 (int b))"
proof -
  define A where "A = a div 10"
  define B where "B = b div 10"
  have da: "a div 100 = A div 10" and db: "b div 100 = B div 10"
    by (simp_all add: A_def B_def div_mult2_eq [symmetric])
  have "format_0d 3 (int a) =
      [digit_char (a div 100), digit_char (a div 10 mod 10), digit_char (a mod 10)]"
    using assms by (intro format_0d_3) simp
  then have ea: "format_0d 3 (int a) =
      [digit_char (A div 10), digit_char (A mod 10), digit_char (a mod 10)]"
    by (simp only: da A_def)
  have "format_0d 3 (int b) =
      [digit_char (b div 100), digit_char (b div 10 mod 10), digit_char (b mod 10)]"
    using assms by (intro format_0d_3) simp
  then have eb: "format_0d 3 (int b) =
      [digit_char (B div 10), digit_char (B mod 10), digit_char (b mod 10)]"
    by (simp only: db B_def)
  have B: "B < 100" using assms(2) by (simp add: B_def)
  from assms(1) have "A < B \<or> (A = B \<and> a mod 10 \<le> b mod 10)"
    unfolding A_def B_def by (rule divmod_le_nat)
  then consider "A div 10 < B div 10"
    | "A div 10 = B div 10" "A mod 10 < B mod 10"
    | "A = B" "a mod 10 < b mod 10"
    | "A = B" "a mod 10 = b mod 10"
    using divmod_lt_nat [of A B 10] by fastforce
  then show ?thesis
  proof cases
    case 1
    moreover have "B div 10 < 10" using B by simp
    ultimately have "digit_char (A div 10) \<noteq> digit_char (B div 10) \<and>
        (of_char (digit_char (A div 10)) :: nat) < of_char (digit_char (B div 10))"
      by (rule digit_char_lt)
    then show ?thesis by (simp add: ea eb)
  next
    case 2
    have "digit_char (A mod 10) \<noteq> digit_char (B mod 10) \<and>
        (of_char (digit_char (A mod 10)) :: nat) < of_char (digit_char (B mod 10))"
      using 2(2) by (rule digit_char_lt) simp
    then show ?thesis by (simp add: ea eb 2(1))
  next
    case 3
    have "digit_char (a mod 10) \<noteq> digit_char (b mod 10) \<and>
        (of_char (digit_char (a mod 10)) :: nat) < of_char (digit_char (b mod 10))"
      using 3(2) by (rule digit_char_lt) simp
    then show ?thesis by (simp add: ea eb 3(1))
  next
    case 4
    then show ?thesis by (simp add: ea eb str_le_refl)
  qed
qed

lemma field_step:
  assumes "b < 100" and "a < b \<or> (a = b \<and> str_le r1 r2)"
  shows "str_le (format_0d 2 (int a) @ sep @ r1) (format_0d 2 (int b) @ sep @ r2)"
  using assms(2)
proof
  assume "a < b"
  then have "format_0d 2 (int a) \<noteq> format_0d 2 (int b) \<and>
         str_le (format_0d 2 (int a)) (format_0d 2 (int b)) \<and>
         length (format_0d 2 (int a)) = length (format_0d 2 (int b))"
    using assms(1) by (rule pad2_lt)
  then show ?thesis by (intro str_le_append_neq) simp_all
next
  assume "a = b \<and> str_le r1 r2"
  then show ?thesis by (simp add: str_le_append_same)
qed

lemma timecode_le:
  fixes h1 m1 c1 x1 h2 m2 c2 x2 :: nat
  assumes "h2 < 100" and "m2 < 100" and "c2 < 100" and "x2 < 1000"
    and "h1 < h2 \<or> (h1 = h2 \<and> (m1 < m2 \<or> (m1 = m2 \<and> (c1 < c2 \<or> (c1 = c2 \<and> x1 \<le> x2)))))"
  shows "str_le
     (format_0d 2 (int h1) @ '':'' @ format_0d 2 (int m1) @ '':'' @
      format_0d 2 (int c1) @ '','' @ format_0d 3 (int x1))
     (format_0d 2 (int h2) @ '':'' @ format_0d 2 (int m2) @ '':'' @
      format_0d 2 (int c2) @ '','' @ format_0d 3 (int x2))"
proof (rule field_step [OF assms(1)])
  let ?C1 = "format_0d 2 (int c1) @ '','' @ format_0d 3 (int x1)"
  let ?C2 = "format_0d 2 (int c2) @ '','' @ format_0d 3 (int x2)"
  let ?M1 = "format_0d 2 (int m1) @ '':'' @ ?C1"
  let ?M2 = "format_0d 2 (int m2) @ '':'' @ ?C2"
  have c: "c1 < c2 \<or> (c1 = c2 \<and> x1 \<le> x2) \<Longrightarrow> str_le ?C1 ?C2"
    using pad3_le [OF _ assms(4), of x1] by (intro field_step [OF assms(3)]) blast
  have m: "m1 < m2 \<or> (m1 = m2 \<and> (c1 < c2 \<or> (c1 = c2 \<and> x1 \<le> x2))) \<Longrightarrow> str_le ?M1 ?M2"
    using c by (intro field_step [OF assms(2)]) blast
  from assms(5) m show "h1 < h2 \<or> (h1 = h2 \<and> str_le ?M1 ?M2)"
    by blast
qed

lemma mod_3600_mod_60: "f mod 3600 mod 60 = f mod 60" for f :: int
  by (rule mod_mod_cancel) simp

lemma fields_order:
  fixes f1 f2 :: int
  assumes "f1 \<le> f2"
  shows "f1 div 3600 < f2 div 3600 \<or>
         (f1 div 3600 = f2 div 3600 \<and>
          (f1 mod 3600 div 60 < f2 mod 3600 div 60 \<or>
           (f1 mod 3600 div 60 = f2 mod 3600 div 60 \<and>
            (f1 mod 60 < f2 mod 60 \<or> (f1 mod 60 = f2 mod 60 \<and> f1 = f2)))))"
proof -
  define r1 where "r1 = f1 mod 3600"
  define r2 where "r2 = f2 mod 3600"
  define h1 where "h1 = f1 div 3600"
  define h2 where "h2 = f2 div 3600"
  define m1 where "m1 = r1 div 60"
  define m2 where "m2 = r2 div 60"
  define c1 where "c1 = r1 mod 60"
  define c2 where "c2 = r2 mod 60"
  have a1: "3600 * h1 + r1 = f1" and a2: "3600 * h2 + r2 = f2"
    unfolding h1_def h2_def r1_def r2_def by (rule mult_div_mod_eq)+
  have b1: "60 * m1 + c1 = r1" and b2: "60 * m2 + c2 = r2"
    unfolding m1_def m2_def c1_def c2_def by (rule mult_div_mod_eq)+
  have h: "h1 < h2 \<or> (h1 = h2 \<and> r1 \<le> r2)"
    unfolding h1_def h2_def r1_def r2_def using assms by (rule divmod_le_int) simp
  have m: "m1 < m2 \<or> (m1 = m2 \<and> c1 \<le> c2)" if "r1 \<le> r2"
    unfolding m1_def m2_def c1_def c2_def using that by (rule divmod_le_int) simp
  have e: "f1 = f2" if "h1 = h2" and "m1 = m2" and "c1 = c2"
    using a1 a2 b1 b2 that by simp
  have "h1 < h2 \<or> (h1 = h2 \<and> (m1 < m2 \<or> (m1 = m2 \<and> (c1 < c2 \<or> (c1 = c2 \<and> f1 = f2)))))"
    using h m e by (metis order_le_less)
  then show ?thesis
    unfolding h1_def h2_def m1_def m2_def c1_def c2_def r1_def r2_def mod_3600_mod_60 .
qed

text \<open>
  C8 (as stated: for all non-negative \<open>s1 \<le> s2\<close> the string for \<open>s1\<close> is
  lexicographically at most the string for \<open>s2\<close>). One second before 100 hours the
  string begins with \<open>99\<close>, at 100 hours it begins with \<open>100\<close>, which is smaller.
\<close>

theorem format_time_monotone_counterexample:
  "(0::real) \<le> 359999 \<and> (359999::real) \<le> 360000 \<and>
   format_time 359999 = ''99:59:59,000'' \<and> format_time 360000 = ''100:00:00,000'' \<and>
   \<not> str_le (format_time 359999) (format_time 360000)"
  by code_simp

text \<open>
  C8, amended: for all \<open>0 \<le> s1 \<le> s2 < 360000\<close> (below 100 hours) the string that
  \<open>format_time\<close> returns for \<open>s1\<close> is lexicographically less than or equal to the
  string it returns for \<open>s2\<close>.
\<close>

theorem format_time_monotone:
  assumes "0 \<le> s1" and "s1 \<le> s2" and "s2 < 360000"
  shows "str_le (format_time s1) (format_time s2)"
proof -
  define f1 where "f1 = \<lfloor>s1\<rfloor>"
  define f2 where "f2 = \<lfloor>s2\<rfloor>"
  define y1 where "y1 = \<lfloor>s1 * 1000\<rfloor> - 1000 * f1"
  define y2 where "y2 = \<lfloor>s2 * 1000\<rfloor> - 1000 * f2"
  have f10: "0 \<le> f1" using assms(1) by (simp add: f1_def)
  have f12: "f1 \<le> f2" using assms(2) by (simp add: f1_def f2_def floor_mono)
  have f2u: "f2 < 360000" using assms(3) by (simp add: f2_def floor_less_iff)
  have f20: "0 \<le> f2" using f10 f12 by simp
  have y: "0 \<le> y1" "0 \<le> y2" "y2 < 1000"
    using millis_range [of s1] millis_range [of s2] by (simp_all add: y1_def y2_def f1_def f2_def)
  have yle: "y1 \<le> y2" if "f1 = f2"
  proof -
    have "\<lfloor>s1 * 1000\<rfloor> \<le> \<lfloor>s2 * 1000\<rfloor>"
      using assms(2) by (intro floor_mono) simp
    with that show ?thesis by (simp add: y1_def y2_def)
  qed
  define h1 where "h1 = nat (f1 div 3600)"
  define h2 where "h2 = nat (f2 div 3600)"
  define m1 where "m1 = nat (f1 mod 3600 div 60)"
  define m2 where "m2 = nat (f2 mod 3600 div 60)"
  define c1 where "c1 = nat (f1 mod 60)"
  define c2 where "c2 = nat (f2 mod 60)"
  define x1 where "x1 = nat y1"
  define x2 where "x2 = nat y2"
  have hd1: "0 \<le> f1 div 3600" using f10 by (simp add: pos_imp_zdiv_nonneg_iff)
  have hd2: "0 \<le> f2 div 3600" using f20 by (simp add: pos_imp_zdiv_nonneg_iff)
  have i1: "int h1 = f1 div 3600" "int m1 = f1 mod 3600 div 60" "int c1 = f1 mod 60" "int x1 = y1"
    using hd1 y by (simp_all add: h1_def m1_def c1_def x1_def pos_imp_zdiv_nonneg_iff)
  have i2: "int h2 = f2 div 3600" "int m2 = f2 mod 3600 div 60" "int c2 = f2 mod 60" "int x2 = y2"
    using hd2 y by (simp_all add: h2_def m2_def c2_def x2_def pos_imp_zdiv_nonneg_iff)
  have "f2 div 3600 < 100"
    using f2u by (simp add: div_less_iff_less_mult)
  then have bh: "h2 < 100" using i2(1) by linarith
  have "f2 mod 3600 div 60 < 60"
    by (simp add: div_less_iff_less_mult)
  then have bm: "m2 < 100" using i2(2) by linarith
  have "f2 mod 60 < 60" by simp
  then have bc: "c2 < 100" using i2(3) by linarith
  have bx: "x2 < 1000" using y(3) i2(4) by linarith
  have ord: "h1 < h2 \<or> (h1 = h2 \<and> (m1 < m2 \<or> (m1 = m2 \<and> (c1 < c2 \<or> (c1 = c2 \<and> x1 \<le> x2)))))"
  proof -
    have "int h1 < int h2 \<or> (int h1 = int h2 \<and> (int m1 < int m2 \<or> (int m1 = int m2 \<and>
        (int c1 < int c2 \<or> (int c1 = int c2 \<and> int x1 \<le> int x2)))))"
      unfolding i1 i2 using fields_order [OF f12] yle by blast
    then show ?thesis by (simp only: of_nat_less_iff of_nat_eq_iff of_nat_le_iff)
  qed
  have e1: "format_time s1 =
      format_0d 2 (int h1) @ '':'' @ format_0d 2 (int m1) @ '':'' @
      format_0d 2 (int c1) @ '','' @ format_0d 3 (int x1)"
    unfolding i1 y1_def f1_def by (rule format_time_components)
  have e2: "format_time s2 =
      format_0d 2 (int h2) @ '':'' @ format_0d 2 (int m2) @ '':'' @
      format_0d 2 (int c2) @ '','' @ format_0d 3 (int x2)"
    unfolding i2 y2_def f2_def by (rule format_time_components)
  show ?thesis
    unfolding e1 e2 using bh bm bc bx ord by (rule timecode_le)
qed

text \<open>The hypotheses of the amended C8 at \<open>1\<close> and \<open>1.25\<close> seconds.\<close>

theorem format_time_monotone_witness:
  "(0::real) \<le> 1 \<and> (1::real) \<le> 5 / 4 \<and> (5 / 4 :: real) < 360000 \<and>
   str_le (format_time 1) (format_time (5 / 4))"
  using format_time_monotone [of 1 "5 / 4"] by simp

end
